theory Spec2Isabelle
  imports Main "HOL-Library.Option_ord" "HOL-Library.Multiset"
begin

section \<open>Code classification of the campaign backend (CodeService)\<close>

text \<open>
  The development embeds the part of \<^verbatim>\<open>CodeService\<close> that reconciles code records
  with the winners table: the normaliser \<^verbatim>\<open>norm\<close>, the variant list
  \<^verbatim>\<open>winnerValueFilters\<close> that every view builds, the four listing views
  \<^verbatim>\<open>getWinners\<close>, \<^verbatim>\<open>getLosers\<close>, \<^verbatim>\<open>getWinnerCodes\<close>,
  \<^verbatim>\<open>getNonWinnerCodes\<close>, and the single lookup \<^verbatim>\<open>getCodeMonth\<close>.

  Strings are \<^typ>\<open>string\<close>. The model reads a character as an ASCII code unit: upper-casing
  touches the letters a to z only and the white space removed by \<^verbatim>\<open>trim\<close> is the ASCII
  white space (tab, line feed, vertical tab, form feed, carriage return, space). Every concrete
  input below is ASCII.
\<close>

subsection \<open>String primitives\<close>

definition isWhiteSpace :: "char \<Rightarrow> bool" where
  "isWhiteSpace c =
     (c \<in> set [CHR 0x09, CHR 0x0A, CHR 0x0B, CHR 0x0C, CHR 0x0D, CHR '' ''])"

text \<open>\<^verbatim>\<open>String.prototype.trim\<close>: white space is dropped at both ends, never inside.\<close>

definition trim :: "string \<Rightarrow> string" where
  "trim s = rev (dropWhile isWhiteSpace (rev (dropWhile isWhiteSpace s)))"

definition toUpperChar :: "char \<Rightarrow> char" where
  "toUpperChar c =
     (case map_of (zip ''abcdefghijklmnopqrstuvwxyz'' ''ABCDEFGHIJKLMNOPQRSTUVWXYZ'') c of
        None \<Rightarrow> c
      | Some u \<Rightarrow> u)"

definition toUpperCase :: "string \<Rightarrow> string" where
  "toUpperCase s = map toUpperChar s"

text \<open>\<^verbatim>\<open>s.replace(/-/g, '')\<close>: every hyphen is deleted.\<close>

definition replaceHyphens :: "string \<Rightarrow> string" where
  "replaceHyphens s = filter (\<lambda>c. c \<noteq> CHR ''-'') s"

text \<open>\<^verbatim>\<open>a.startsWith(b)\<close> and \<^verbatim>\<open>a.includes(b)\<close>: literal, case-sensitive containment.\<close>

fun startsWith :: "string \<Rightarrow> string \<Rightarrow> bool" where
  "startsWith s [] = True"
| "startsWith [] (p # ps) = False"
| "startsWith (c # cs) (p # ps) = (c = p \<and> startsWith cs ps)"

fun includes_str :: "string \<Rightarrow> string \<Rightarrow> bool" where
  "includes_str [] sub = (sub = [])"
| "includes_str (c # cs) sub = (startsWith (c # cs) sub \<or> includes_str cs sub)"

subsection \<open>The normaliser and the variant list\<close>

text \<open>
  \<^verbatim>\<open>const norm = (s: string) => (s || '').trim().toUpperCase().replace(/-/g, '')\<close>.
  The guard \<^verbatim>\<open>s || ''\<close> replaces a falsy argument by the empty string; on a string the
  only falsy value is the empty string itself.
\<close>

definition norm :: "string \<Rightarrow> string" where
  "norm s = replaceHyphens (toUpperCase (trim (if s = [] then [] else s)))"

text \<open>
  The normaliser as the specification words it: trim surrounding white space, convert to
  upper case, remove all hyphen characters.
\<close>

definition normalize_spec :: "string \<Rightarrow> string" where
  "normalize_spec s = [toUpperChar c. c \<leftarrow> trim s, toUpperChar c \<noteq> CHR ''-'']"

text \<open>
  \<^verbatim>\<open>normalized.length === 10 ? `${normalized.slice(0, 6)}-${normalized.slice(6)}` : normalized\<close>
\<close>

definition withHyphen :: "string \<Rightarrow> string" where
  "withHyphen normalized =
     (if length normalized = 10 then take 6 normalized @ ''-'' @ drop 6 normalized
      else normalized)"

text \<open>
  The loop shared by the four views: for every winner value, four strings are pushed, in this
  order.
\<close>

primrec winnerValueFilters :: "string list \<Rightarrow> string list" where
  "winnerValueFilters [] = []"
| "winnerValueFilters (code # winnerValues) =
     [code, withHyphen (norm code), norm code, replaceHyphens code]
       @ winnerValueFilters winnerValues"

subsection \<open>Stored records\<close>

text \<open>
  The entity classes are not part of the sources at hand; the records carry the columns that
  the service reads or selects. Dates are time stamps, \<open>None\<close> is SQL \<^verbatim>\<open>NULL\<close>.
\<close>

record code =
  c_uid :: string
  c_id :: nat
  c_value :: string
  c_giftId :: "string option"
  c_isUsed :: bool
  c_usedAt :: "int option"
  c_usedById :: "string option"
  c_month :: "string option"
  c_deletedAt :: "int option"

record winner =
  w_value :: string
  w_deletedAt :: "int option"

record gift =
  g_uid :: string
  g_name :: string
  g_deletedAt :: "int option"

record user =
  u_uid :: string
  u_firstName :: string
  u_deletedAt :: "int option"

record db =
  codes :: "code list"
  winners :: "winner list"
  gifts :: "gift list"
  users :: "user list"

text \<open>\<^verbatim>\<open>PagingDto\<close>: the three optional fields that the views read.\<close>

record paging =
  q_search :: "string option"
  q_page :: "int option"
  q_limit :: "int option"

record find_result =
  r_data :: "code list"
  r_total :: nat

text \<open>
  \<^verbatim>\<open>CodeException.NotFound()\<close>, thrown by the service itself, and the failure with
  which the ORM rejects a call when the database refuses the statement it was sent.
\<close>

datatype error = NotFound | QueryFailed

subsection \<open>The query interface of the ORM\<close>

text \<open>
  What the service assigns to \<^verbatim>\<open>where.value\<close>: nothing, the literal \<^verbatim>\<open>null\<close>, a plain
  string, \<^verbatim>\<open>In(list)\<close>, \<^verbatim>\<open>Not(In(list))\<close> or \<^verbatim>\<open>Like(pattern)\<close>.
\<close>

datatype value_cond =
    Unset
  | NullLiteral
  | Equals string
  | In "string list"
  | NotIn "string list"
  | Like string

text \<open>
  A \<^verbatim>\<open>where\<close> object of the service: \<^verbatim>\<open>deletedAt: IsNull()\<close> is part of every one of
  them, \<^verbatim>\<open>isUsed\<close> is either absent or a Boolean, \<^verbatim>\<open>value\<close> is one of the conditions above.
\<close>

record find_where =
  wh_isUsed :: "bool option"
  wh_value :: value_cond

text \<open>
  SQL \<^verbatim>\<open>LIKE\<close>: \<^verbatim>\<open>%\<close> stands for any run of characters, \<^verbatim>\<open>_\<close> for any single one, every
  other character for itself. Comparison is literal; escape characters and the collation of
  the database are not modelled.
\<close>

fun like_match :: "string \<Rightarrow> string \<Rightarrow> bool" where
  "like_match [] [] = True"
| "like_match [] (c # cs) = False"
| "like_match (p # ps) [] = (p = CHR ''%'' \<and> like_match ps [])"
| "like_match (p # ps) (c # cs) =
     (if p = CHR ''%'' then like_match ps (c # cs) \<or> like_match (p # ps) cs
      else (p = CHR ''_'' \<or> p = c) \<and> like_match ps cs)"

text \<open>
  The ORM skips a property of a \<^verbatim>\<open>where\<close> object whose value is \<^verbatim>\<open>null\<close>: a literal
  \<^verbatim>\<open>null\<close> puts no condition on the column, exactly as an absent property does. That is
  the behaviour of the release line whose \<^verbatim>\<open>DataSource\<close> interface and object-form
  \<^verbatim>\<open>select\<close> the service uses.
\<close>

fun value_matches :: "value_cond \<Rightarrow> string \<Rightarrow> bool" where
  "value_matches Unset v = True"
| "value_matches NullLiteral v = True"
| "value_matches (Equals x) v = (v = x)"
| "value_matches (In xs) v = (v \<in> set xs)"
| "value_matches (NotIn xs) v = (v \<notin> set xs)"
| "value_matches (Like pat) v = like_match pat v"

definition where_matches :: "find_where \<Rightarrow> code \<Rightarrow> bool" where
  "where_matches wh c =
     (c_deletedAt c = None
      \<and> (case wh_isUsed wh of None \<Rightarrow> True | Some b \<Rightarrow> c_isUsed c = b)
      \<and> value_matches (wh_value wh) (c_value c))"

text \<open>
  \<^verbatim>\<open>order: { usedAt: 'DESC' }\<close> and \<^verbatim>\<open>order: { id: 'ASC' }\<close>. Under a descending order
  the database (PostgreSQL) places rows whose key is \<^verbatim>\<open>NULL\<close> first and the others by
  decreasing key; rows with equal keys come in ascending order of their identifier.
  \<open>usedAt_desc_key\<close> is the key whose ascending order that is, \<open>recent_first a b\<close> says
  that \<open>a\<close> may stand before \<open>b\<close> in that order.
\<close>

datatype order_by = UsedAtDesc | IdAsc

definition usedAt_desc_key :: "code \<Rightarrow> int option" where
  "usedAt_desc_key c = (case c_usedAt c of None \<Rightarrow> None | Some t \<Rightarrow> Some (- t))"

definition recent_first :: "code \<Rightarrow> code \<Rightarrow> bool" where
  "recent_first a b =
     (case c_usedAt a of
        None \<Rightarrow> True
      | Some s \<Rightarrow> (case c_usedAt b of None \<Rightarrow> False | Some t \<Rightarrow> t \<le> s))"

fun order_rows :: "order_by \<Rightarrow> code list \<Rightarrow> code list" where
  "order_rows UsedAtDesc rows = sort_key usedAt_desc_key (sort_key c_id rows)"
| "order_rows IdAsc rows = sort_key c_id rows"

text \<open>
  \<^verbatim>\<open>repository.findAndCount({ where, order, take, skip })\<close>: the ordered matching rows
  from offset \<^verbatim>\<open>skip\<close> on, at most \<^verbatim>\<open>take\<close> of them, and the number of all matching
  rows. A \<^verbatim>\<open>take\<close> of 0 is no limit at all: every row from the offset on is returned.
  A negative \<^verbatim>\<open>take\<close> or \<^verbatim>\<open>skip\<close> is sent to the database as it is, which refuses a
  negative \<^verbatim>\<open>LIMIT\<close> or \<^verbatim>\<open>OFFSET\<close>: the call fails. The column projection
  (\<^verbatim>\<open>select\<close>, \<^verbatim>\<open>relations\<close>) is not modelled: a result row is the stored row.
\<close>

definition findAndCount ::
  "code list \<Rightarrow> find_where \<Rightarrow> order_by \<Rightarrow> int \<Rightarrow> int \<Rightarrow> error + (code list \<times> nat)" where
  "findAndCount rows wh ord take_n skip_n =
     (let matching = order_rows ord (filter (where_matches wh) rows)
      in if take_n < 0 \<or> skip_n < 0 then Inl QueryFailed
         else Inr (if take_n = 0 then drop (nat skip_n) matching
                   else take (nat take_n) (drop (nat skip_n) matching),
                   length matching))"


subsection \<open>The service\<close>

text \<open>\<^verbatim>\<open>a ?? b\<close>\<close>

fun nullish :: "'a option \<Rightarrow> 'a \<Rightarrow> 'a" where
  "nullish None d = d"
| "nullish (Some x) d = x"

text \<open>
  \<^verbatim>\<open>winnerRepository.find({ where: { deletedAt: IsNull() }, select: { value: true } })\<close>
  followed by \<^verbatim>\<open>allWinners.map(w => w.value)\<close>.
\<close>

definition winnerValues :: "db \<Rightarrow> string list" where
  "winnerValues d = map w_value (filter (\<lambda>w. w_deletedAt w = None) (winners d))"

text \<open>
  \<^verbatim>\<open>if (query.search)\<close> holds for a present, non-empty string: the search term that takes
  effect.
\<close>

definition searchTerm :: "paging \<Rightarrow> string option" where
  "searchTerm query =
     (case q_search query of
        None \<Rightarrow> None
      | Some search \<Rightarrow> if search = [] then None else Some search)"

text \<open>The \<^verbatim>\<open>where\<close> object of \<^verbatim>\<open>getWinners\<close> (lines 220 to 236).\<close>

definition getWinners_where :: "string list \<Rightarrow> paging \<Rightarrow> find_where" where
  "getWinners_where wvf query =
     (let wh = \<lparr>wh_isUsed = Some True, wh_value = Unset\<rparr>;
          wh = (if 0 < length wvf then wh\<lparr>wh_value := In wvf\<rparr>
                else wh\<lparr>wh_value := NullLiteral\<rparr>)
      in case searchTerm query of
           None \<Rightarrow> wh
         | Some search \<Rightarrow>
             (let wh = wh\<lparr>wh_value := Like (''%'' @ search @ ''%'')\<rparr>
              in if 0 < length wvf
                 then wh\<lparr>wh_value := In (filter (\<lambda>v. includes_str v search) wvf)\<rparr>
                 else wh))"

text \<open>The \<^verbatim>\<open>where\<close> object of \<^verbatim>\<open>getLosers\<close> (lines 295 to 309).\<close>

definition getLosers_where :: "string list \<Rightarrow> paging \<Rightarrow> find_where" where
  "getLosers_where wvf query =
     (let wh = \<lparr>wh_isUsed = Some True, wh_value = Unset\<rparr>;
          wh = (if 0 < length wvf then wh\<lparr>wh_value := NotIn wvf\<rparr> else wh)
      in case searchTerm query of
           None \<Rightarrow> wh
         | Some search \<Rightarrow>
             (let wh = wh\<lparr>wh_value := Like (''%'' @ search @ ''%'')\<rparr>
              in if 0 < length wvf then wh\<lparr>wh_value := NotIn wvf\<rparr> else wh))"

text \<open>The \<^verbatim>\<open>where\<close> object of \<^verbatim>\<open>getWinnerCodes\<close> (lines 359 to 374).\<close>

definition getWinnerCodes_where :: "string list \<Rightarrow> paging \<Rightarrow> find_where" where
  "getWinnerCodes_where wvf query =
     (let wh = \<lparr>wh_isUsed = None, wh_value = Unset\<rparr>;
          wh = (if 0 < length wvf then wh\<lparr>wh_value := In wvf\<rparr>
                else wh\<lparr>wh_value := NullLiteral\<rparr>)
      in case searchTerm query of
           None \<Rightarrow> wh
         | Some search \<Rightarrow>
             (let wh = wh\<lparr>wh_value := Like (''%'' @ search @ ''%'')\<rparr>
              in if 0 < length wvf
                 then wh\<lparr>wh_value := In (filter (\<lambda>v. includes_str v search) wvf)\<rparr>
                 else wh))"

text \<open>The \<^verbatim>\<open>where\<close> object of \<^verbatim>\<open>getNonWinnerCodes\<close> (lines 433 to 446).\<close>

definition getNonWinnerCodes_where :: "string list \<Rightarrow> paging \<Rightarrow> find_where" where
  "getNonWinnerCodes_where wvf query =
     (let wh = \<lparr>wh_isUsed = None, wh_value = Unset\<rparr>;
          wh = (if 0 < length wvf then wh\<lparr>wh_value := NotIn wvf\<rparr> else wh)
      in case searchTerm query of
           None \<Rightarrow> wh
         | Some search \<Rightarrow>
             (let wh = wh\<lparr>wh_value := Like (''%'' @ search @ ''%'')\<rparr>
              in if 0 < length wvf then wh\<lparr>wh_value := NotIn wvf\<rparr> else wh))"

text \<open>
  The common tail of the four views: the defaults are written into the query object
  (\<^verbatim>\<open>query.limit = query.limit ?? 10; query.page = query.page ?? 1\<close>), then the rows are
  fetched with \<^verbatim>\<open>take: query.limit, skip: (query.page - 1) * query.limit\<close>. The views
  themselves throw nothing; a failure of the fetch passes through. A view returns its outcome,
  the query object as it leaves it, and the database.
\<close>

definition run_view ::
  "db \<Rightarrow> find_where \<Rightarrow> order_by \<Rightarrow> paging \<Rightarrow> (error + find_result) \<times> paging \<times> db" where
  "run_view d wh ord query =
     (let query = query\<lparr>q_limit := Some (nullish (q_limit query) 10)\<rparr>;
          query = query\<lparr>q_page := Some (nullish (q_page query) 1)\<rparr>;
          lim = nullish (q_limit query) 10;
          pg = nullish (q_page query) 1
      in (case findAndCount (codes d) wh ord lim ((pg - 1) * lim) of
            Inl e \<Rightarrow> Inl e
          | Inr (rows, n) \<Rightarrow> Inr \<lparr>r_data = rows, r_total = n\<rparr>,
          query, d))"

definition getWinners :: "db \<Rightarrow> paging \<Rightarrow> (error + find_result) \<times> paging \<times> db" where
  "getWinners d query =
     run_view d (getWinners_where (winnerValueFilters (winnerValues d)) query)
       UsedAtDesc query"

definition getLosers :: "db \<Rightarrow> paging \<Rightarrow> (error + find_result) \<times> paging \<times> db" where
  "getLosers d query =
     run_view d (getLosers_where (winnerValueFilters (winnerValues d)) query)
       UsedAtDesc query"

definition getWinnerCodes :: "db \<Rightarrow> paging \<Rightarrow> (error + find_result) \<times> paging \<times> db" where
  "getWinnerCodes d query =
     run_view d (getWinnerCodes_where (winnerValueFilters (winnerValues d)) query)
       IdAsc query"

definition getNonWinnerCodes ::
  "db \<Rightarrow> paging \<Rightarrow> (error + find_result) \<times> paging \<times> db" where
  "getNonWinnerCodes d query =
     run_view d (getNonWinnerCodes_where (winnerValueFilters (winnerValues d)) query)
       IdAsc query"


subsection \<open>Example records\<close>

text \<open>
  A non-deleted code record with the given identifier, value, redemption flag and redemption
  time, a non-deleted winner with the given value, a query with the given search field and
  no page or limit, and a query with the given page and limit and no search field. They only
  shorten the concrete inputs of the examples below.
\<close>

definition example_code :: "nat \<Rightarrow> string \<Rightarrow> bool \<Rightarrow> int option \<Rightarrow> code" where
  "example_code i v u t =
     \<lparr>c_uid = [], c_id = i, c_value = v, c_giftId = None, c_isUsed = u, c_usedAt = t,
      c_usedById = None, c_month = None, c_deletedAt = None\<rparr>"

definition example_winner :: "string \<Rightarrow> winner" where
  "example_winner v = \<lparr>w_value = v, w_deletedAt = None\<rparr>"

definition example_db :: "code list \<Rightarrow> string list \<Rightarrow> db" where
  "example_db cs ws = \<lparr>codes = cs, winners = map example_winner ws, gifts = [], users = []\<rparr>"

definition example_query :: "string option \<Rightarrow> paging" where
  "example_query s = \<lparr>q_search = s, q_page = None, q_limit = None\<rparr>"

definition example_page :: "int \<Rightarrow> int \<Rightarrow> paging" where
  "example_page pg lim = \<lparr>q_search = None, q_page = Some pg, q_limit = Some lim\<rparr>"

section \<open>Properties\<close>

subsection \<open>String primitives and the normaliser\<close>

lemmas string_defs =
  norm_def trim_def toUpperCase_def toUpperChar_def replaceHyphens_def isWhiteSpace_def
  withHyphen_def

lemma toUpperChar_idem: "toUpperChar (toUpperChar c) = toUpperChar c"
  by (simp add: toUpperChar_def)

lemma toUpperChar_hyphen: "(toUpperChar c = CHR ''-'') = (c = CHR ''-'')"
  by (simp add: toUpperChar_def)

lemma isWhiteSpace_toUpperChar: "isWhiteSpace (toUpperChar c) = isWhiteSpace c"
  by (simp add: toUpperChar_def isWhiteSpace_def)

lemma toUpperCase_idem: "toUpperCase (toUpperCase s) = toUpperCase s"
  by (simp add: toUpperCase_def toUpperChar_idem)

lemma dropWhile_toUpperCase:
  "dropWhile isWhiteSpace (toUpperCase s) = toUpperCase (dropWhile isWhiteSpace s)"
  by (induction s) (simp_all add: toUpperCase_def isWhiteSpace_toUpperChar)

lemma rev_toUpperCase: "rev (toUpperCase s) = toUpperCase (rev s)"
  by (simp add: toUpperCase_def rev_map)

lemma trim_toUpperCase: "trim (toUpperCase s) = toUpperCase (trim s)"
  by (simp add: trim_def dropWhile_toUpperCase rev_toUpperCase)

lemma replaceHyphens_toUpperCase:
  "replaceHyphens (toUpperCase s) = toUpperCase (replaceHyphens s)"
  by (induction s) (simp_all add: replaceHyphens_def toUpperCase_def toUpperChar_hyphen)

lemma replaceHyphens_id: "CHR ''-'' \<notin> set s \<Longrightarrow> replaceHyphens s = s"
  by (induction s) (auto simp add: replaceHyphens_def)

lemma hyphen_notin_replaceHyphens: "CHR ''-'' \<notin> set (replaceHyphens s)"
  by (simp add: replaceHyphens_def)

lemma set_trim: "set (trim s) \<subseteq> set s"
  by (auto simp add: trim_def dest!: set_dropWhileD)

lemma dropWhile_rev_dropWhile:
  assumes "xs = [] \<or> \<not> P (hd xs)"
  shows "dropWhile P (rev (dropWhile P (rev xs))) = rev (dropWhile P (rev xs))"
proof (cases "dropWhile P (rev xs) = []")
  case True
  show ?thesis unfolding True by simp
next
  case False
  define ys where "ys = dropWhile P (rev xs)"
  have ne: "ys \<noteq> []" using False by (simp add: ys_def)
  have "rev xs = takeWhile P (rev xs) @ ys" by (simp add: ys_def)
  then have "last (rev xs) = last ys" using ne by (metis last_appendR)
  moreover have "xs \<noteq> []" using False by auto
  ultimately have "last ys = hd xs" by (simp add: last_rev)
  then have "\<not> P (hd (rev ys))" using assms \<open>xs \<noteq> []\<close> ne by (simp add: hd_rev)
  then have "dropWhile P (rev ys) = rev ys" by (cases "rev ys") simp_all
  then show ?thesis by (simp add: ys_def)
qed

lemma trim_idem: "trim (trim s) = trim s"
proof -
  have "dropWhile isWhiteSpace s = [] \<or> \<not> isWhiteSpace (hd (dropWhile isWhiteSpace s))"
    using hd_dropWhile[of isWhiteSpace s] by blast
  then show ?thesis
    unfolding trim_def rev_rev_ident by (simp add: dropWhile_rev_dropWhile)
qed

lemma norm_unfold: "norm s = replaceHyphens (toUpperCase (trim s))"
  by (simp add: norm_def)

lemma toUpperCase_norm: "toUpperCase (norm s) = norm s"
  by (simp add: norm_unfold replaceHyphens_toUpperCase[symmetric] toUpperCase_idem)

lemma hyphen_notin_norm: "CHR ''-'' \<notin> set (norm s)"
  by (simp add: norm_unfold hyphen_notin_replaceHyphens)

lemma norm_norm: "norm (norm s) = trim (norm s)"
proof -
  have "norm (norm s) = replaceHyphens (trim (toUpperCase (norm s)))"
    by (simp add: norm_unfold[of "norm s"] trim_toUpperCase)
  also have "\<dots> = replaceHyphens (trim (norm s))" by (simp add: toUpperCase_norm)
  also have "\<dots> = trim (norm s)"
    using set_trim[of "norm s"] hyphen_notin_norm[of s] by (intro replaceHyphens_id) blast
  finally show ?thesis .
qed

lemma norm_spec: "norm s = normalize_spec s"
proof -
  have "replaceHyphens (toUpperCase xs) = [toUpperChar c. c \<leftarrow> xs, toUpperChar c \<noteq> CHR ''-'']" for xs
    by (induction xs) (simp_all add: replaceHyphens_def toUpperCase_def)
  then show ?thesis by (simp add: norm_unfold normalize_spec_def)
qed

lemma norm_idem_no_hyphen: "CHR ''-'' \<notin> set s \<Longrightarrow> norm (norm s) = norm s"
proof -
  assume h: "CHR ''-'' \<notin> set s"
  have "CHR ''-'' \<notin> set (toUpperCase (trim s))"
  proof
    assume "CHR ''-'' \<in> set (toUpperCase (trim s))"
    then obtain c where c: "c \<in> set (trim s)" and "toUpperChar c = CHR ''-''"
      unfolding toUpperCase_def set_map by (elim imageE) simp
    then have "c = CHR ''-''" by (simp add: toUpperChar_hyphen)
    with c have "CHR ''-'' \<in> set (trim s)" by simp
    then have "CHR ''-'' \<in> set s" using set_trim[of s] by (rule rev_subsetD)
    with h show False by simp
  qed
  then have n: "norm s = toUpperCase (trim s)" by (simp add: norm_unfold replaceHyphens_id)
  have "norm (norm s) = trim (norm s)" by (rule norm_norm)
  also have "\<dots> = trim (toUpperCase (trim s))" by (simp only: n)
  also have "\<dots> = toUpperCase (trim (trim s))" by (rule trim_toUpperCase)
  also have "\<dots> = toUpperCase (trim s)" by (simp only: trim_idem)
  also have "\<dots> = norm s" by (simp only: n)
  finally show ?thesis .
qed

text \<open>
  C5. The normaliser is the total function "trim, then upper case, then delete hyphens" of
  the specification. Applying it twice gives the trimmed normal form,
  \<open>norm (norm s) = trim (norm s)\<close>: it is idempotent on every string without a hyphen,
  and not on all strings, because deleting a hyphen can expose white space at an end.
\<close>

theorem norm_refines_spec_and_twice:
  "norm s = normalize_spec s
   \<and> norm (norm s) = trim (norm s)
   \<and> (CHR ''-'' \<notin> set s \<longrightarrow> norm (norm s) = norm s)"
  using norm_spec[of s] norm_norm[of s] norm_idem_no_hyphen[of s] by blast

theorem norm_refines_spec_and_twice_witness:
  "CHR ''-'' \<notin> set '' ab12 ''
   \<and> norm '' ab12 '' = normalize_spec '' ab12 ''
   \<and> norm (norm '' ab12 '') = norm '' ab12 ''"
proof -
  have h: "CHR ''-'' \<notin> set '' ab12 ''" by simp
  from norm_refines_spec_and_twice[of "'' ab12 ''"] h show ?thesis by blast
qed

theorem norm_idempotent_counterexample:
  "norm (norm ''- a'') \<noteq> norm ''- a''"
  by (simp add: string_defs)

subsection \<open>The variant list\<close>

lemma set_winnerValueFilters:
  "set (winnerValueFilters ws) =
     (\<Union>w\<in>set ws. {w, withHyphen (norm w), norm w, replaceHyphens w})"
  by (induction ws) auto

lemma length_winnerValueFilters: "length (winnerValueFilters ws) = 4 * length ws"
  by (induction ws) simp_all

lemma winnerValueFilters_Nil_iff: "winnerValueFilters ws = [] \<longleftrightarrow> ws = []"
  by (cases ws) simp_all

text \<open>
  C4. The variant list of a winner value holds exactly the raw value, the normalised value,
  the raw value with its hyphens deleted and, only when the normalised value has length 10,
  the 6-4 hyphenated normalised value: four entries are pushed per winner and no other
  spelling is generated.
\<close>

theorem variant_set_exactly_four:
  "set (winnerValueFilters ws) =
     (\<Union>w\<in>set ws. {w, norm w, replaceHyphens w}
        \<union> (if length (norm w) = 10
            then {take 6 (norm w) @ ''-'' @ drop 6 (norm w)} else {}))
   \<and> length (winnerValueFilters ws) = 4 * length ws"
proof -
  have "{w, withHyphen (norm w), norm w, replaceHyphens w} =
          {w, norm w, replaceHyphens w}
            \<union> (if length (norm w) = 10
                then {take 6 (norm w) @ ''-'' @ drop 6 (norm w)} else {})" for w
    by (auto simp add: withHyphen_def)
  then show ?thesis
    by (simp only: set_winnerValueFilters length_winnerValueFilters)
qed

theorem variant_set_exactly_four_witness:
  "set (winnerValueFilters [''ab12-cd3456'']) =
     {''ab12-cd3456'', ''AB12CD-3456'', ''AB12CD3456'', ''ab12cd3456''}
   \<and> ''ab12cd-3456'' \<notin> set (winnerValueFilters [''ab12-cd3456''])
   \<and> length (winnerValueFilters [''ab12-cd3456'']) = 4"
proof -
  have n: "norm ''ab12-cd3456'' = ''AB12CD3456''" by (simp add: string_defs)
  have r: "replaceHyphens ''ab12-cd3456'' = ''ab12cd3456''" by (simp add: string_defs)
  show ?thesis
    using variant_set_exactly_four[of "[''ab12-cd3456'']"] by (simp add: n r) blast
qed

text \<open>
  C6. When the normalised value has exactly 10 characters, the hyphenated variant is its
  first 6 characters, a hyphen, and its last 4 characters. For every other length the
  hyphenation step yields the normalised value again, so the variant set of the winner
  gains no element from it.
\<close>

theorem withHyphen_six_four:
  "(length (norm w) = 10 \<longrightarrow>
      withHyphen (norm w) = take 6 (norm w) @ ''-'' @ take 4 (drop 6 (norm w))
      \<and> length (withHyphen (norm w)) = 11)
   \<and> (length (norm w) \<noteq> 10 \<longrightarrow>
      withHyphen (norm w) = norm w
      \<and> set (winnerValueFilters [w]) = {w, norm w, replaceHyphens w})"
  by (auto simp add: withHyphen_def)

theorem withHyphen_six_four_witness:
  "length (norm ''ab1234cd56'') = 10
   \<and> withHyphen (norm ''ab1234cd56'') = ''AB1234-CD56''
   \<and> length (norm ''ab12'') \<noteq> 10
   \<and> withHyphen (norm ''ab12'') = ''AB12''
   \<and> set (winnerValueFilters [''ab12'']) = {''ab12'', ''AB12''}"
proof -
  have n: "norm ''ab1234cd56'' = ''AB1234CD56''" by (simp add: string_defs)
  have m: "norm ''ab12'' = ''AB12''" by (simp add: string_defs)
  have r: "replaceHyphens ''ab12'' = ''ab12''" by (simp add: string_defs)
  show ?thesis
    using withHyphen_six_four[of "''ab1234cd56''"] withHyphen_six_four[of "''ab12''"]
    by (simp add: n m r) blast
qed

subsection \<open>The views\<close>

lemma set_order_rows: "set (order_rows ord rows) = set rows"
  by (cases ord) simp_all

lemma length_order_rows: "length (order_rows ord rows) = length rows"
  by (cases ord) simp_all

lemma distinct_order_rows: "distinct (order_rows ord rows) = distinct rows"
  by (cases ord) simp_all

lemma mset_order_rows: "mset (order_rows ord rows) = mset rows"
  by (cases ord) simp_all

lemma recent_first_key: "usedAt_desc_key a \<le> usedAt_desc_key b \<Longrightarrow> recent_first a b"
  by (auto simp add: usedAt_desc_key_def recent_first_def split: option.splits)

lemma sorted_order_rows_usedAt: "sorted_wrt recent_first (order_rows UsedAtDesc rows)"
proof -
  have "sorted (map usedAt_desc_key (sort_key usedAt_desc_key (sort_key c_id rows)))"
    by (rule sorted_sort_key)
  then have "sorted_wrt (\<lambda>a b. usedAt_desc_key a \<le> usedAt_desc_key b)
               (sort_key usedAt_desc_key (sort_key c_id rows))"
    by (simp add: sorted_wrt_map)
  then show ?thesis
    using recent_first_key by (auto elim: sorted_wrt_mono_rel[rotated])
qed

lemma sorted_order_rows_id: "sorted_wrt (\<lambda>a b. c_id a \<le> c_id b) (order_rows IdAsc rows)"
proof -
  have "sorted (map c_id (sort_key c_id rows))" by (rule sorted_sort_key)
  then show ?thesis by (simp add: sorted_wrt_map)
qed

text \<open>What a view returns, in one equation.\<close>

lemma run_view_eq:
  "run_view d wh ord q =
     (if nullish (q_limit q) 10 < 0 \<or> (nullish (q_page q) 1 - 1) * nullish (q_limit q) 10 < 0
      then Inl QueryFailed
      else Inr \<lparr>r_data =
                 (if nullish (q_limit q) 10 = 0
                  then order_rows ord (filter (where_matches wh) (codes d))
                  else take (nat (nullish (q_limit q) 10))
                         (drop (nat ((nullish (q_page q) 1 - 1) * nullish (q_limit q) 10))
                           (order_rows ord (filter (where_matches wh) (codes d))))),
               r_total = length (filter (where_matches wh) (codes d))\<rparr>,
      q\<lparr>q_limit := Some (nullish (q_limit q) 10), q_page := Some (nullish (q_page q) 1)\<rparr>,
      d)"
  by (simp add: run_view_def findAndCount_def Let_def length_order_rows)


lemma run_view_Inr:
  assumes "fst (run_view d wh ord q) = Inr r"
  shows "r_total r = length (filter (where_matches wh) (codes d))"
    and "r_data r =
           (if nullish (q_limit q) 10 = 0
            then order_rows ord (filter (where_matches wh) (codes d))
            else take (nat (nullish (q_limit q) 10))
                   (drop (nat ((nullish (q_page q) 1 - 1) * nullish (q_limit q) 10))
                     (order_rows ord (filter (where_matches wh) (codes d)))))"
    and "0 \<le> nullish (q_limit q) 10"
    and "0 \<le> (nullish (q_page q) 1 - 1) * nullish (q_limit q) 10"
  using assms by (auto simp add: run_view_eq split: if_splits)

lemma run_view_Inr_iff:
  "(\<exists>r. fst (run_view d wh ord q) = Inr r) \<longleftrightarrow>
     0 \<le> nullish (q_limit q) 10
     \<and> 0 \<le> (nullish (q_page q) 1 - 1) * nullish (q_limit q) 10"
  by (auto simp add: run_view_eq)


lemma set_page_subset: "set (take n (drop k xs)) \<subseteq> set xs"
  by (meson set_take_subset set_drop_subset subset_trans)

lemma run_view_data_matches:
  assumes "fst (run_view d wh ord q) = Inr r" and "c \<in> set (r_data r)"
  shows "c \<in> set (codes d) \<and> where_matches wh c"
proof -
  have "c \<in> set (order_rows ord (filter (where_matches wh) (codes d)))"
    using assms(2) set_page_subset unfolding run_view_Inr(2)[OF assms(1)]
    by (fastforce split: if_splits)
  then show ?thesis by (simp add: set_order_rows)
qed


lemma run_view_distinct:
  assumes "distinct (codes d)" and "fst (run_view d wh ord q) = Inr r"
  shows "distinct (r_data r)
         \<and> r_total r = card {c \<in> set (codes d). where_matches wh c}"
proof -
  have "distinct (r_data r)"
    unfolding run_view_Inr(2)[OF assms(2)] using assms(1) by (simp add: distinct_order_rows)
  moreover have "{c \<in> set (codes d). where_matches wh c}
                   = {c. where_matches wh c} \<inter> set (codes d)"
    by blast
  then have "r_total r = card {c \<in> set (codes d). where_matches wh c}"
    unfolding run_view_Inr(1)[OF assms(2)] using assms(1) by (simp add: distinct_length_filter)
  ultimately show ?thesis ..
qed

lemma run_view_cong:
  assumes "codes d' = codes d" and "where_matches wh' = where_matches wh"
  shows "fst (run_view d' wh' ord q) = fst (run_view d wh ord q)"
  using assms by (simp add: run_view_eq)

lemma view_results:
  "getWinners d q =
     run_view d (getWinners_where (winnerValueFilters (winnerValues d)) q) UsedAtDesc q"
  "getLosers d q =
     run_view d (getLosers_where (winnerValueFilters (winnerValues d)) q) UsedAtDesc q"
  "getWinnerCodes d q =
     run_view d (getWinnerCodes_where (winnerValueFilters (winnerValues d)) q) IdAsc q"
  "getNonWinnerCodes d q =
     run_view d (getNonWinnerCodes_where (winnerValueFilters (winnerValues d)) q) IdAsc q"
  by (simp_all add: getWinners_def getLosers_def getWinnerCodes_def getNonWinnerCodes_def)

lemma getWinners_where_eq:
  "getWinners_where wvf q =
     \<lparr>wh_isUsed = Some True,
      wh_value = (if wvf = [] then (case searchTerm q of None \<Rightarrow> NullLiteral
                                    | Some s \<Rightarrow> Like (''%'' @ s @ ''%''))
                  else In (case searchTerm q of None \<Rightarrow> wvf
                           | Some s \<Rightarrow> filter (\<lambda>v. includes_str v s) wvf))\<rparr>"
  by (simp add: getWinners_where_def Let_def split: option.splits)

lemma getWinnerCodes_where_eq:
  "getWinnerCodes_where wvf q =
     \<lparr>wh_isUsed = None,
      wh_value = (if wvf = [] then (case searchTerm q of None \<Rightarrow> NullLiteral
                                    | Some s \<Rightarrow> Like (''%'' @ s @ ''%''))
                  else In (case searchTerm q of None \<Rightarrow> wvf
                           | Some s \<Rightarrow> filter (\<lambda>v. includes_str v s) wvf))\<rparr>"
  by (simp add: getWinnerCodes_where_def Let_def split: option.splits)

lemma getLosers_where_eq:
  "getLosers_where wvf q =
     \<lparr>wh_isUsed = Some True,
      wh_value = (if wvf = [] then (case searchTerm q of None \<Rightarrow> Unset
                                    | Some s \<Rightarrow> Like (''%'' @ s @ ''%''))
                  else NotIn wvf)\<rparr>"
  by (simp add: getLosers_where_def Let_def split: option.splits)

lemma getNonWinnerCodes_where_eq:
  "getNonWinnerCodes_where wvf q =
     \<lparr>wh_isUsed = None,
      wh_value = (if wvf = [] then (case searchTerm q of None \<Rightarrow> Unset
                                    | Some s \<Rightarrow> Like (''%'' @ s @ ''%''))
                  else NotIn wvf)\<rparr>"
  by (simp add: getNonWinnerCodes_where_def Let_def split: option.splits)

lemmas where_eqs =
  getWinners_where_eq getLosers_where_eq getWinnerCodes_where_eq getNonWinnerCodes_where_eq

lemmas example_defs =
  example_code_def example_winner_def example_db_def example_query_def example_page_def

lemmas eval_defs =
  view_results run_view_eq where_eqs where_matches_def winnerValues_def searchTerm_def
  usedAt_desc_key_def example_defs

text \<open>
  The filters without search term. With winners present the two views of a pair ask for a
  value in the variant list and for a value not in it. With no winner the \<^verbatim>\<open>null\<close>
  condition of \<^verbatim>\<open>getWinners\<close> and \<^verbatim>\<open>getWinnerCodes\<close> is skipped, so that each of them
  has the filter of its partner.
\<close>

lemma where_matches_membership:
  assumes "searchTerm q = None" and "wvf \<noteq> []"
  shows "where_matches (getWinners_where wvf q) c
           \<longleftrightarrow> c_deletedAt c = None \<and> c_isUsed c \<and> c_value c \<in> set wvf"
    and "where_matches (getLosers_where wvf q) c
           \<longleftrightarrow> c_deletedAt c = None \<and> c_isUsed c \<and> c_value c \<notin> set wvf"
    and "where_matches (getWinnerCodes_where wvf q) c
           \<longleftrightarrow> c_deletedAt c = None \<and> c_value c \<in> set wvf"
    and "where_matches (getNonWinnerCodes_where wvf q) c
           \<longleftrightarrow> c_deletedAt c = None \<and> c_value c \<notin> set wvf"
  using assms by (auto simp add: where_eqs where_matches_def)

lemma where_matches_empty_winners:
  assumes "searchTerm q = None"
  shows "where_matches (getWinners_where [] q) = (\<lambda>c. c_deletedAt c = None \<and> c_isUsed c)"
    and "where_matches (getLosers_where [] q) = (\<lambda>c. c_deletedAt c = None \<and> c_isUsed c)"
    and "where_matches (getWinnerCodes_where [] q) = (\<lambda>c. c_deletedAt c = None)"
    and "where_matches (getNonWinnerCodes_where [] q) = (\<lambda>c. c_deletedAt c = None)"
  using assms by (auto simp add: where_eqs where_matches_def fun_eq_iff)

text \<open>
  With winners present and a search term \<open>s\<close>, the Winners and Winner-codes views test
  membership in the narrowed variant list, which amounts to membership in the full list
  together with containment of the term; the Losers and Non-winner-codes views test
  non-membership in the full list and nothing else.
\<close>

lemma where_matches_with_search:
  assumes "searchTerm q = Some s" and "wvf \<noteq> []"
  shows "where_matches (getWinners_where wvf q) c
           \<longleftrightarrow> c_deletedAt c = None \<and> c_isUsed c
               \<and> c_value c \<in> set wvf \<and> includes_str (c_value c) s"
    and "where_matches (getWinnerCodes_where wvf q) c
           \<longleftrightarrow> c_deletedAt c = None \<and> c_value c \<in> set wvf \<and> includes_str (c_value c) s"
    and "where_matches (getLosers_where wvf q) c
           \<longleftrightarrow> c_deletedAt c = None \<and> c_isUsed c \<and> c_value c \<notin> set wvf"
    and "where_matches (getNonWinnerCodes_where wvf q) c
           \<longleftrightarrow> c_deletedAt c = None \<and> c_value c \<notin> set wvf"
  using assms by (auto simp add: where_eqs where_matches_def)

text \<open>
  Whatever the query, a record returned by the Winners or the Losers view is redeemed and
  not deleted; these two views are ordered by redemption time, most recent first after the
  records without one, the other two by ascending identifier.
\<close>

lemma views_used_and_ordered:
  "fst (getWinners d q) = Inr r \<Longrightarrow>
     (\<forall>c \<in> set (r_data r). c_isUsed c \<and> c_deletedAt c = None) \<and> sorted_wrt recent_first (r_data r)"
  "fst (getLosers d q) = Inr r \<Longrightarrow>
     (\<forall>c \<in> set (r_data r). c_isUsed c \<and> c_deletedAt c = None) \<and> sorted_wrt recent_first (r_data r)"
  "fst (getWinnerCodes d q) = Inr r \<Longrightarrow> sorted_wrt (\<lambda>a b. c_id a \<le> c_id b) (r_data r)"
  "fst (getNonWinnerCodes d q) = Inr r \<Longrightarrow> sorted_wrt (\<lambda>a b. c_id a \<le> c_id b) (r_data r)"
proof -
  have used: "\<forall>c \<in> set (r_data r). c_isUsed c \<and> c_deletedAt c = None"
    if "fst (run_view d wh ord q) = Inr r" and "wh_isUsed wh = Some True" for wh ord
    using run_view_data_matches[OF that(1)] that(2) by (simp add: where_matches_def)
  have s1: "sorted_wrt recent_first (r_data r)"
    if "fst (run_view d wh UsedAtDesc q) = Inr r" for wh
    unfolding run_view_Inr(2)[OF that]
    by (simp add: sorted_order_rows_usedAt del: order_rows.simps)
  have s2: "sorted_wrt (\<lambda>a b. c_id a \<le> c_id b) (r_data r)"
    if "fst (run_view d wh IdAsc q) = Inr r" for wh
    unfolding run_view_Inr(2)[OF that]
    by (simp add: sorted_order_rows_id del: order_rows.simps)
  show "fst (getWinners d q) = Inr r \<Longrightarrow>
     (\<forall>c \<in> set (r_data r). c_isUsed c \<and> c_deletedAt c = None) \<and> sorted_wrt recent_first (r_data r)"
    unfolding view_results using used s1 by (simp add: getWinners_where_eq)
  show "fst (getLosers d q) = Inr r \<Longrightarrow>
     (\<forall>c \<in> set (r_data r). c_isUsed c \<and> c_deletedAt c = None) \<and> sorted_wrt recent_first (r_data r)"
    unfolding view_results using used s1 by (simp add: getLosers_where_eq)
  show "fst (getWinnerCodes d q) = Inr r \<Longrightarrow> sorted_wrt (\<lambda>a b. c_id a \<le> c_id b) (r_data r)"
    unfolding view_results by (rule s2)
  show "fst (getNonWinnerCodes d q) = Inr r \<Longrightarrow> sorted_wrt (\<lambda>a b. c_id a \<le> c_id b) (r_data r)"
    unfolding view_results by (rule s2)
qed

subsection \<open>Classification\<close>

text \<open>
  C1. A code value with the same normal form as a stored winner is in the variant list, and
  is accepted by the filter of the Winners and Winner-codes views (query without search
  term), when it is spelled in one of the four listed ways: exactly as the winner, in normal
  form, as the winner without hyphens, or as the 6-4 hyphenated normal form. Other spellings
  with the same normal form are not matched: the lower-case hyphenated value
  \<open>''ab1234-cd56''\<close> is not a variant of the winner \<open>''AB1234CD56''\<close>, nor is
  \<open>''AB12-34CD56''\<close>, whose hyphen sits elsewhere.
\<close>

theorem listed_spelling_is_winner:
  assumes "w \<in> set ws" and "norm c = norm w"
    and "c = w \<or> c = norm c \<or> c = replaceHyphens w \<or> c = withHyphen (norm w)"
    and "c_value r = c" and "c_isUsed r" and "c_deletedAt r = None"
    and "searchTerm q = None"
  shows "c \<in> set (winnerValueFilters ws)
         \<and> where_matches (getWinners_where (winnerValueFilters ws) q) r
         \<and> where_matches (getWinnerCodes_where (winnerValueFilters ws) q) r"
proof -
  have "c \<in> {w, withHyphen (norm w), norm w, replaceHyphens w}"
    using assms(2,3) by auto
  then have m: "c \<in> set (winnerValueFilters ws)"
    using assms(1) unfolding set_winnerValueFilters by blast
  then have "winnerValueFilters ws \<noteq> []" by auto
  then show ?thesis
    using m assms(4-7) by (simp add: where_eqs where_matches_def)
qed

theorem listed_spelling_is_winner_witness:
  "norm ''AB1234-CD56'' = norm ''ab1234cd56''
   \<and> ''AB1234-CD56'' \<in> set (winnerValueFilters [''ab1234cd56''])
   \<and> where_matches
        (getWinners_where (winnerValueFilters [''ab1234cd56'']) (example_query None))
        (example_code 1 ''AB1234-CD56'' True (Some 5))"
proof -
  have n1: "norm ''ab1234cd56'' = ''AB1234CD56''" by (simp add: string_defs)
  have n2: "norm ''AB1234-CD56'' = ''AB1234CD56''" by (simp add: string_defs)
  have h: "withHyphen ''AB1234CD56'' = ''AB1234-CD56''" by (simp add: string_defs)
  show ?thesis
    using listed_spelling_is_winner[of "''ab1234cd56''" "[''ab1234cd56'']" "''AB1234-CD56''"
        "example_code 1 ''AB1234-CD56'' True (Some 5)" "example_query None"]
    by (simp add: n1 n2 h searchTerm_def example_defs)
qed

theorem same_normal_form_not_matched_counterexample:
  "norm ''ab1234-cd56'' = norm ''AB1234CD56''
   \<and> ''ab1234-cd56'' \<notin> set (winnerValueFilters [''AB1234CD56''])
   \<and> norm ''AB12-34CD56'' = norm ''AB1234CD56''
   \<and> ''AB12-34CD56'' \<notin> set (winnerValueFilters [''AB1234CD56''])
   \<and> fst (getWinners
            (example_db [example_code 1 ''ab1234-cd56'' True (Some 5)] [''AB1234CD56''])
            (example_query None))
       = Inr \<lparr>r_data = [], r_total = 0\<rparr>"
proof -
  have n1: "norm ''AB1234CD56'' = ''AB1234CD56''" by (simp add: string_defs)
  have n2: "norm ''ab1234-cd56'' = ''AB1234CD56''" by (simp add: string_defs)
  have n3: "norm ''AB12-34CD56'' = ''AB1234CD56''" by (simp add: string_defs)
  have h: "withHyphen ''AB1234CD56'' = ''AB1234-CD56''" by (simp add: string_defs)
  have r: "replaceHyphens ''AB1234CD56'' = ''AB1234CD56''" by (simp add: string_defs)
  show ?thesis by (simp add: n1 n2 n3 h r eval_defs)
qed

text \<open>
  C10. Each of the four views returns the database as it received it. The query object is
  returned with \<open>limit\<close> set to its old value, or 10 when it was absent, and \<open>page\<close> to its
  old value, or 1 when it was absent; the search field is untouched. With a positive limit
  and a page from 1 on, the data is the page of \<open>limit\<close> rows that starts at offset
  \<open>(page - 1) * limit\<close> of the ordered matching rows. A limit of 0 is no limit: all matching
  rows are returned, not a page of size 0. A negative limit or a negative offset is refused
  by the database and the call fails, the query object having been updated before.
\<close>

theorem views_read_only_and_paged:
  "(let lim = nullish (q_limit q) 10;
        pg = nullish (q_page q) 1;
        q' = q\<lparr>q_limit := Some lim, q_page := Some pg\<rparr>;
        wvf = winnerValueFilters (winnerValues d);
        outcome = (\<lambda>ord wh.
          let rows = order_rows ord (filter (where_matches wh) (codes d))
          in if lim < 0 \<or> (pg - 1) * lim < 0 then Inl QueryFailed
             else Inr \<lparr>r_data = (if lim = 0 then rows
                                 else take (nat lim) (drop (nat ((pg - 1) * lim)) rows)),
                       r_total = length rows\<rparr>)
    in getWinners d q = (outcome UsedAtDesc (getWinners_where wvf q), q', d)
       \<and> getLosers d q = (outcome UsedAtDesc (getLosers_where wvf q), q', d)
       \<and> getWinnerCodes d q = (outcome IdAsc (getWinnerCodes_where wvf q), q', d)
       \<and> getNonWinnerCodes d q = (outcome IdAsc (getNonWinnerCodes_where wvf q), q', d)
       \<and> q_search q' = q_search q)"
  unfolding Let_def view_results run_view_eq by (simp add: length_order_rows)

theorem views_read_only_and_paged_witness:
  "getWinners
     (example_db [example_code 1 ''AB1234CD56'' True (Some 5),
                  example_code 2 ''AB1234-CD56'' True (Some 7),
                  example_code 3 ''ZZ9999ZZ99'' True (Some 9)] [''AB1234CD56''])
     (example_page 2 1)
     = (Inr \<lparr>r_data = [example_code 1 ''AB1234CD56'' True (Some 5)], r_total = 2\<rparr>,
        \<lparr>q_search = None, q_page = Some 2, q_limit = Some 1\<rparr>,
        example_db [example_code 1 ''AB1234CD56'' True (Some 5),
                    example_code 2 ''AB1234-CD56'' True (Some 7),
                    example_code 3 ''ZZ9999ZZ99'' True (Some 9)] [''AB1234CD56''])
   \<and> snd (getLosers
     (example_db [example_code 1 ''AB1234CD56'' True (Some 5),
                  example_code 2 ''AB1234-CD56'' True (Some 7),
                  example_code 3 ''ZZ9999ZZ99'' True (Some 9)] [''AB1234CD56''])
     (example_query (Some ''ZZ'')))
     = (\<lparr>q_search = Some ''ZZ'', q_page = Some 1, q_limit = Some 10\<rparr>,
        example_db [example_code 1 ''AB1234CD56'' True (Some 5),
                    example_code 2 ''AB1234-CD56'' True (Some 7),
                    example_code 3 ''ZZ9999ZZ99'' True (Some 9)] [''AB1234CD56''])"
proof -
  let ?d = "example_db [example_code 1 ''AB1234CD56'' True (Some 5),
                  example_code 2 ''AB1234-CD56'' True (Some 7),
                  example_code 3 ''ZZ9999ZZ99'' True (Some 9)] [''AB1234CD56'']"
  have n: "norm ''AB1234CD56'' = ''AB1234CD56''" by (simp add: string_defs)
  have h: "withHyphen ''AB1234CD56'' = ''AB1234-CD56''" by (simp add: string_defs)
  have r: "replaceHyphens ''AB1234CD56'' = ''AB1234CD56''" by (simp add: string_defs)
  have a: "getWinners ?d (example_page 2 1)
     = (Inr \<lparr>r_data = [example_code 1 ''AB1234CD56'' True (Some 5)], r_total = 2\<rparr>,
        \<lparr>q_search = None, q_page = Some 2, q_limit = Some 1\<rparr>, ?d)"
    using views_read_only_and_paged[of "example_page 2 1" ?d]
    by (simp add: Let_def n h r where_eqs where_matches_def winnerValues_def searchTerm_def
        usedAt_desc_key_def example_defs)
  have b: "snd (getLosers ?d (example_query (Some ''ZZ'')))
     = (\<lparr>q_search = Some ''ZZ'', q_page = Some 1, q_limit = Some 10\<rparr>, ?d)"
    using views_read_only_and_paged[of "example_query (Some ''ZZ'')" ?d]
    by (simp add: Let_def example_defs)
  show ?thesis using a b by simp
qed

theorem limit_zero_returns_all_counterexample:
  "fst (getWinners
     (example_db [example_code 1 ''AB1234CD56'' True (Some 5),
                  example_code 2 ''AB1234-CD56'' True (Some 7),
                  example_code 3 ''ZZ9999ZZ99'' True (Some 9)] [''AB1234CD56''])
     (example_page 1 0))
     = Inr \<lparr>r_data = [example_code 2 ''AB1234-CD56'' True (Some 7),
                      example_code 1 ''AB1234CD56'' True (Some 5)], r_total = 2\<rparr>
   \<and> q_limit (fst (snd (getWinners
     (example_db [example_code 1 ''AB1234CD56'' True (Some 5),
                  example_code 2 ''AB1234-CD56'' True (Some 7),
                  example_code 3 ''ZZ9999ZZ99'' True (Some 9)] [''AB1234CD56''])
     (example_page 1 0)))) = Some 0"
proof -
  have n: "norm ''AB1234CD56'' = ''AB1234CD56''" by (simp add: string_defs)
  have h: "withHyphen ''AB1234CD56'' = ''AB1234-CD56''" by (simp add: string_defs)
  have r: "replaceHyphens ''AB1234CD56'' = ''AB1234CD56''" by (simp add: string_defs)
  show ?thesis by (simp add: n h r eval_defs)
qed

text \<open>
  C3. When no non-deleted winner is stored and the query has no search term, the Losers view
  returns a result exactly when limit and offset are not negative; its total is the number
  of all redeemed non-deleted codes and its data is the requested page (everything, when the
  limit is 0) of the full redeemed collection in an order that has the most recent
  redemption first; when the collection fits on the first page the data is the full
  collection. With a search term the Losers view returns only the redeemed codes that
  contain it. The Winners and Winner-codes views do not return zero records: see C8.
\<close>

theorem empty_winners_without_search:
  assumes "winnerValues d = []" and "searchTerm q = None"
  shows "(let redeemed = filter (\<lambda>c. c_deletedAt c = None \<and> c_isUsed c) (codes d);
              lim = nullish (q_limit q) 10;
              pg = nullish (q_page q) 1
          in ((\<exists>r. fst (getLosers d q) = Inr r) \<longleftrightarrow> 0 \<le> lim \<and> 0 \<le> (pg - 1) * lim)
             \<and> (\<forall>r. fst (getLosers d q) = Inr r \<longrightarrow>
                   r_total r = length redeemed
                   \<and> (\<exists>full. mset full = mset redeemed \<and> sorted_wrt recent_first full
                         \<and> r_data r = (if lim = 0 then full
                                        else take (nat lim) (drop (nat ((pg - 1) * lim)) full)))
                   \<and> (lim = 0 \<or> (pg = 1 \<and> int (length redeemed) \<le> lim) \<longrightarrow>
                        mset (r_data r) = mset redeemed
                        \<and> sorted_wrt recent_first (r_data r))))"
proof -
  define redeemed where "redeemed = filter (\<lambda>c. c_deletedAt c = None \<and> c_isUsed c) (codes d)"
  define lim where "lim = nullish (q_limit q) 10"
  define pg where "pg = nullish (q_page q) 1"
  define full where "full = order_rows UsedAtDesc redeemed"
  have l: "where_matches (getLosers_where [] q) = (\<lambda>c. c_deletedAt c = None \<and> c_isUsed c)"
    using assms(2) by (rule where_matches_empty_winners)
  have v: "getLosers d q = run_view d (getLosers_where [] q) UsedAtDesc q"
    by (simp add: view_results assms(1))
  have m: "mset full = mset redeemed" unfolding full_def by (rule mset_order_rows)
  have s: "sorted_wrt recent_first full" unfolding full_def by (rule sorted_order_rows_usedAt)
  have ex: "(\<exists>r. fst (getLosers d q) = Inr r) \<longleftrightarrow> 0 \<le> lim \<and> 0 \<le> (pg - 1) * lim"
    unfolding v lim_def pg_def by (rule run_view_Inr_iff)
  have res: "r_total r = length redeemed
             \<and> r_data r = (if lim = 0 then full
                           else take (nat lim) (drop (nat ((pg - 1) * lim)) full))"
    if "fst (getLosers d q) = Inr r" for r
    using run_view_Inr(1,2)[OF that[unfolded v]]
    unfolding l redeemed_def[symmetric] full_def[symmetric] lim_def[symmetric] pg_def[symmetric]
    by simp
  have all: "mset (r_data r) = mset redeemed \<and> sorted_wrt recent_first (r_data r)"
    if "fst (getLosers d q) = Inr r" and "lim = 0 \<or> (pg = 1 \<and> int (length redeemed) \<le> lim)"
    for r
  proof -
    have "length full = length redeemed" unfolding full_def by (rule length_order_rows)
    then have "r_data r = full" using res[OF that(1)] that(2) by auto
    then show ?thesis using m s by simp
  qed
  show ?thesis
    unfolding Let_def redeemed_def[symmetric] lim_def[symmetric] pg_def[symmetric]
    using ex res all m s by blast
qed

theorem empty_winners_without_search_witness:
  "winnerValues (example_db [example_code 1 ''a1'' True (Some 5),
                              example_code 2 ''b2'' True (Some 7),
                              example_code 3 ''c3'' False None] []) = []
   \<and> searchTerm (example_query None) = None
   \<and> fst (getLosers
         (example_db [example_code 1 ''a1'' True (Some 5),
                      example_code 2 ''b2'' True (Some 7),
                      example_code 3 ''c3'' False None] [])
         (example_query None))
       = Inr \<lparr>r_data = [example_code 2 ''b2'' True (Some 7), example_code 1 ''a1'' True (Some 5)],
              r_total = 2\<rparr>
   \<and> mset [example_code 2 ''b2'' True (Some 7), example_code 1 ''a1'' True (Some 5)]
       = mset [example_code 1 ''a1'' True (Some 5), example_code 2 ''b2'' True (Some 7)]
   \<and> sorted_wrt recent_first
        [example_code 2 ''b2'' True (Some 7), example_code 1 ''a1'' True (Some 5)]"
proof -
  let ?d = "example_db [example_code 1 ''a1'' True (Some 5),
                         example_code 2 ''b2'' True (Some 7),
                         example_code 3 ''c3'' False None] []"
  let ?r = "\<lparr>r_data = [example_code 2 ''b2'' True (Some 7), example_code 1 ''a1'' True (Some 5)],
              r_total = 2\<rparr>"
  have w: "winnerValues ?d = []" by (simp add: winnerValues_def example_db_def)
  have s: "searchTerm (example_query None) = None"
    by (simp add: searchTerm_def example_query_def)
  have g: "fst (getLosers ?d (example_query None)) = Inr ?r"
    by (simp add: eval_defs)
  have red: "filter (\<lambda>c. c_deletedAt c = None \<and> c_isUsed c) (codes ?d)
               = [example_code 1 ''a1'' True (Some 5), example_code 2 ''b2'' True (Some 7)]"
    by (simp add: example_defs)
  have p: "nullish (q_page (example_query None)) 1 = 1"
          "nullish (q_limit (example_query None)) 10 = 10"
    by (simp_all add: example_query_def)
  from empty_winners_without_search[OF w s]
  have "mset (r_data ?r)
          = mset [example_code 1 ''a1'' True (Some 5), example_code 2 ''b2'' True (Some 7)]
        \<and> sorted_wrt recent_first (r_data ?r)"
    unfolding Let_def red p using g by simp
  then show ?thesis using w s g by simp
qed

theorem empty_winners_counterexample:
  "winnerValues (example_db [example_code 1 ''a1'' True (Some 5),
                              example_code 2 ''b2'' True (Some 7)] []) = []
   \<and> fst (getWinners
         (example_db [example_code 1 ''a1'' True (Some 5),
                      example_code 2 ''b2'' True (Some 7)] [])
         (example_query (Some ''a'')))
       = Inr \<lparr>r_data = [example_code 1 ''a1'' True (Some 5)], r_total = 1\<rparr>
   \<and> fst (getLosers
         (example_db [example_code 1 ''a1'' True (Some 5),
                      example_code 2 ''b2'' True (Some 7)] [])
         (example_query (Some ''a'')))
       = Inr \<lparr>r_data = [example_code 1 ''a1'' True (Some 5)], r_total = 1\<rparr>
   \<and> fst (getWinners
         (example_db [example_code 1 ''a1'' True (Some 5),
                      example_code 2 ''b2'' True (Some 7)] [])
         (example_query None))
       = Inr \<lparr>r_data = [example_code 2 ''b2'' True (Some 7), example_code 1 ''a1'' True (Some 5)],
              r_total = 2\<rparr>
   \<and> fst (getWinnerCodes
         (example_db [example_code 1 ''a1'' True (Some 5),
                      example_code 2 ''b2'' True (Some 7)] [])
         (example_query None))
       = Inr \<lparr>r_data = [example_code 1 ''a1'' True (Some 5), example_code 2 ''b2'' True (Some 7)],
              r_total = 2\<rparr>"
  by (simp add: eval_defs)

text \<open>
  C2. With winners present, \<^verbatim>\<open>getLosers\<close> and \<^verbatim>\<open>getNonWinnerCodes\<close> first assign the
  \<^verbatim>\<open>Like\<close> condition of the search term and then overwrite it with \<^verbatim>\<open>Not(In(...))\<close> over
  the full variant list: the search term has no effect. Here the only winner is
  \<open>''AB1234CD56''\<close>, the search term is \<open>''AB''\<close>, and the redeemed code
  \<open>''ZZ9999ZZ99''\<close>, which does not contain the term, is returned by both views.
\<close>

theorem losers_drop_search_term:
  "\<not> includes_str ''ZZ9999ZZ99'' ''AB''
   \<and> fst (getLosers
         (example_db [example_code 1 ''ZZ9999ZZ99'' True (Some 5)] [''AB1234CD56''])
         (example_query (Some ''AB'')))
       = Inr \<lparr>r_data = [example_code 1 ''ZZ9999ZZ99'' True (Some 5)], r_total = 1\<rparr>
   \<and> fst (getNonWinnerCodes
         (example_db [example_code 1 ''ZZ9999ZZ99'' True (Some 5)] [''AB1234CD56''])
         (example_query (Some ''AB'')))
       = Inr \<lparr>r_data = [example_code 1 ''ZZ9999ZZ99'' True (Some 5)], r_total = 1\<rparr>"
proof -
  have n: "norm ''AB1234CD56'' = ''AB1234CD56''" by (simp add: string_defs)
  have h: "withHyphen ''AB1234CD56'' = ''AB1234-CD56''" by (simp add: string_defs)
  have r: "replaceHyphens ''AB1234CD56'' = ''AB1234CD56''" by (simp add: string_defs)
  show ?thesis by (simp add: n h r eval_defs)
qed

text \<open>
  C8. The two views of a pair do not differ by the membership test alone. With no winner
  stored, \<^verbatim>\<open>getWinners\<close> and \<^verbatim>\<open>getWinnerCodes\<close> set \<^verbatim>\<open>where.value = null\<close>, which the
  ORM skips: the redeemed code \<open>''ZZ9999ZZ99''\<close>, whose value is in no variant list, is
  returned by the Winners view as well as by the Losers view, and by the Winner-codes view as
  well as by the Non-winner-codes view. With the winner \<open>''AB1234CD56''\<close> stored and the
  search term \<open>''ZZ''\<close>, the redeemed winning code is returned by neither the Winners nor
  the Losers view.
\<close>

theorem views_pairs_not_complementary:
  "winnerValueFilters (winnerValues
      (example_db [example_code 1 ''ZZ9999ZZ99'' True (Some 5)] [])) = []
   \<and> fst (getWinners (example_db [example_code 1 ''ZZ9999ZZ99'' True (Some 5)] [])
           (example_query None))
       = Inr \<lparr>r_data = [example_code 1 ''ZZ9999ZZ99'' True (Some 5)], r_total = 1\<rparr>
   \<and> fst (getLosers (example_db [example_code 1 ''ZZ9999ZZ99'' True (Some 5)] [])
           (example_query None))
       = Inr \<lparr>r_data = [example_code 1 ''ZZ9999ZZ99'' True (Some 5)], r_total = 1\<rparr>
   \<and> fst (getWinnerCodes (example_db [example_code 1 ''ZZ9999ZZ99'' True (Some 5)] [])
           (example_query None))
       = Inr \<lparr>r_data = [example_code 1 ''ZZ9999ZZ99'' True (Some 5)], r_total = 1\<rparr>
   \<and> fst (getNonWinnerCodes (example_db [example_code 1 ''ZZ9999ZZ99'' True (Some 5)] [])
           (example_query None))
       = Inr \<lparr>r_data = [example_code 1 ''ZZ9999ZZ99'' True (Some 5)], r_total = 1\<rparr>
   \<and> ''AB1234CD56'' \<in> set (winnerValueFilters (winnerValues
        (example_db [example_code 2 ''AB1234CD56'' True (Some 7)] [''AB1234CD56''])))
   \<and> fst (getWinners (example_db [example_code 2 ''AB1234CD56'' True (Some 7)] [''AB1234CD56''])
           (example_query (Some ''ZZ'')))
       = Inr \<lparr>r_data = [], r_total = 0\<rparr>
   \<and> fst (getLosers (example_db [example_code 2 ''AB1234CD56'' True (Some 7)] [''AB1234CD56''])
           (example_query (Some ''ZZ'')))
       = Inr \<lparr>r_data = [], r_total = 0\<rparr>"
proof -
  have n: "norm ''AB1234CD56'' = ''AB1234CD56''" by (simp add: string_defs)
  have h: "withHyphen ''AB1234CD56'' = ''AB1234-CD56''" by (simp add: string_defs)
  have r: "replaceHyphens ''AB1234CD56'' = ''AB1234CD56''" by (simp add: string_defs)
  show ?thesis by (simp add: n h r eval_defs)
qed

lemma where_matches_set_cong:
  assumes "set xs = set ys"
  shows "where_matches (getWinners_where xs q) = where_matches (getWinners_where ys q)"
    and "where_matches (getLosers_where xs q) = where_matches (getLosers_where ys q)"
    and "where_matches (getWinnerCodes_where xs q) = where_matches (getWinnerCodes_where ys q)"
    and "where_matches (getNonWinnerCodes_where xs q)
           = where_matches (getNonWinnerCodes_where ys q)"
proof -
  have e: "xs = [] \<longleftrightarrow> ys = []" using assms by (metis set_empty)
  show "where_matches (getWinners_where xs q) = where_matches (getWinners_where ys q)"
    using assms e by (auto simp add: where_eqs where_matches_def fun_eq_iff split: option.splits)
  show "where_matches (getLosers_where xs q) = where_matches (getLosers_where ys q)"
    using assms e by (auto simp add: where_eqs where_matches_def fun_eq_iff split: option.splits)
  show "where_matches (getWinnerCodes_where xs q) = where_matches (getWinnerCodes_where ys q)"
    using assms e by (auto simp add: where_eqs where_matches_def fun_eq_iff split: option.splits)
  show "where_matches (getNonWinnerCodes_where xs q)
           = where_matches (getNonWinnerCodes_where ys q)"
    using assms e by (auto simp add: where_eqs where_matches_def fun_eq_iff split: option.splits)
qed

text \<open>
  C7. The views depend on the winners only through the set of generated variants. When a
  further winner entry leaves that set unchanged (an entry that is repeated literally, or
  one code stored both in normal form and in its 6-4 hyphenated spelling), all four views
  return the same outcome for every query; when the stored code records are distinct, no
  record appears twice in the data of any of the four views and the total of each view
  counts each matching record once. Two entries that only share their normal form can
  generate different variants, and then match more records together than either does alone.
\<close>

theorem equal_variant_sets_equal_views:
  assumes "codes d' = codes d"
    and "set (winnerValueFilters (winnerValues d')) = set (winnerValueFilters (winnerValues d))"
  shows "fst (getWinners d' q) = fst (getWinners d q)
         \<and> fst (getLosers d' q) = fst (getLosers d q)
         \<and> fst (getWinnerCodes d' q) = fst (getWinnerCodes d q)
         \<and> fst (getNonWinnerCodes d' q) = fst (getNonWinnerCodes d q)
         \<and> (distinct (codes d) \<longrightarrow>
              (\<forall>r. fst (getWinners d' q) = Inr r \<longrightarrow>
                 distinct (r_data r)
                 \<and> r_total r = card {c \<in> set (codes d). where_matches
                     (getWinners_where (winnerValueFilters (winnerValues d)) q) c})
              \<and> (\<forall>r. fst (getLosers d' q) = Inr r \<longrightarrow>
                 distinct (r_data r)
                 \<and> r_total r = card {c \<in> set (codes d). where_matches
                     (getLosers_where (winnerValueFilters (winnerValues d)) q) c})
              \<and> (\<forall>r. fst (getWinnerCodes d' q) = Inr r \<longrightarrow>
                 distinct (r_data r)
                 \<and> r_total r = card {c \<in> set (codes d). where_matches
                     (getWinnerCodes_where (winnerValueFilters (winnerValues d)) q) c})
              \<and> (\<forall>r. fst (getNonWinnerCodes d' q) = Inr r \<longrightarrow>
                 distinct (r_data r)
                 \<and> r_total r = card {c \<in> set (codes d). where_matches
                     (getNonWinnerCodes_where (winnerValueFilters (winnerValues d)) q) c}))"
proof -
  note c = where_matches_set_cong[OF assms(2), of q]
  have 1: "fst (getWinners d' q) = fst (getWinners d q)"
    unfolding view_results using assms(1) c(1) by (rule run_view_cong)
  have 2: "fst (getLosers d' q) = fst (getLosers d q)"
    unfolding view_results using assms(1) c(2) by (rule run_view_cong)
  have 3: "fst (getWinnerCodes d' q) = fst (getWinnerCodes d q)"
    unfolding view_results using assms(1) c(3) by (rule run_view_cong)
  have 4: "fst (getNonWinnerCodes d' q) = fst (getNonWinnerCodes d q)"
    unfolding view_results using assms(1) c(4) by (rule run_view_cong)
  have 5: "\<forall>r. fst (getWinners d' q) = Inr r \<longrightarrow> distinct (r_data r)
             \<and> r_total r = card {c \<in> set (codes d). where_matches
                  (getWinners_where (winnerValueFilters (winnerValues d)) q) c}"
    if "distinct (codes d)"
    unfolding 1 unfolding view_results using run_view_distinct[OF that] by blast
  have 6: "\<forall>r. fst (getLosers d' q) = Inr r \<longrightarrow> distinct (r_data r)
             \<and> r_total r = card {c \<in> set (codes d). where_matches
                  (getLosers_where (winnerValueFilters (winnerValues d)) q) c}"
    if "distinct (codes d)"
    unfolding 2 unfolding view_results using run_view_distinct[OF that] by blast
  have 7: "\<forall>r. fst (getWinnerCodes d' q) = Inr r \<longrightarrow> distinct (r_data r)
             \<and> r_total r = card {c \<in> set (codes d). where_matches
                  (getWinnerCodes_where (winnerValueFilters (winnerValues d)) q) c}"
    if "distinct (codes d)"
    unfolding 3 unfolding view_results using run_view_distinct[OF that] by blast
  have 8: "\<forall>r. fst (getNonWinnerCodes d' q) = Inr r \<longrightarrow> distinct (r_data r)
             \<and> r_total r = card {c \<in> set (codes d). where_matches
                  (getNonWinnerCodes_where (winnerValueFilters (winnerValues d)) q) c}"
    if "distinct (codes d)"
    unfolding 4 unfolding view_results using run_view_distinct[OF that] by blast
  show ?thesis using 1 2 3 4 5 6 7 8 by blast
qed

theorem equal_variant_sets_equal_views_witness:
  "set (winnerValueFilters (winnerValues
          (example_db [example_code 1 ''AB1234-CD56'' True (Some 5),
                       example_code 2 ''ZZ9999ZZ99'' True (Some 7)]
             [''AB1234CD56'', ''AB1234-CD56''])))
     = set (winnerValueFilters (winnerValues
          (example_db [example_code 1 ''AB1234-CD56'' True (Some 5),
                       example_code 2 ''ZZ9999ZZ99'' True (Some 7)] [''AB1234CD56''])))
   \<and> distinct [example_code 1 ''AB1234-CD56'' True (Some 5),
                example_code 2 ''ZZ9999ZZ99'' True (Some 7)]
   \<and> fst (getWinners
          (example_db [example_code 1 ''AB1234-CD56'' True (Some 5),
                       example_code 2 ''ZZ9999ZZ99'' True (Some 7)]
             [''AB1234CD56'', ''AB1234-CD56''])
          (example_query None))
     = Inr \<lparr>r_data = [example_code 1 ''AB1234-CD56'' True (Some 5)], r_total = 1\<rparr>
   \<and> fst (getLosers
          (example_db [example_code 1 ''AB1234-CD56'' True (Some 5),
                       example_code 2 ''ZZ9999ZZ99'' True (Some 7)]
             [''AB1234CD56'', ''AB1234-CD56''])
          (example_query None))
     = Inr \<lparr>r_data = [example_code 2 ''ZZ9999ZZ99'' True (Some 7)], r_total = 1\<rparr>"
proof -
  let ?cs = "[example_code 1 ''AB1234-CD56'' True (Some 5),
              example_code 2 ''ZZ9999ZZ99'' True (Some 7)]"
  let ?d' = "example_db ?cs [''AB1234CD56'', ''AB1234-CD56'']"
  let ?d = "example_db ?cs [''AB1234CD56'']"
  have n1: "norm ''AB1234CD56'' = ''AB1234CD56''" by (simp add: string_defs)
  have n2: "norm ''AB1234-CD56'' = ''AB1234CD56''" by (simp add: string_defs)
  have h: "withHyphen ''AB1234CD56'' = ''AB1234-CD56''" by (simp add: string_defs)
  have r1: "replaceHyphens ''AB1234CD56'' = ''AB1234CD56''" by (simp add: string_defs)
  have r2: "replaceHyphens ''AB1234-CD56'' = ''AB1234CD56''" by (simp add: string_defs)
  have cs: "codes ?d' = codes ?d" by (simp add: example_db_def)
  have vs: "set (winnerValueFilters (winnerValues ?d'))
              = set (winnerValueFilters (winnerValues ?d))"
    by (auto simp add: winnerValues_def example_db_def example_winner_def n1 n2 h r1 r2)
  have dc: "distinct ?cs" by (simp add: example_code_def)
  have w: "fst (getWinners ?d (example_query None))
             = Inr \<lparr>r_data = [example_code 1 ''AB1234-CD56'' True (Some 5)], r_total = 1\<rparr>"
    by (simp add: n1 h r1 eval_defs)
  have l: "fst (getLosers ?d (example_query None))
             = Inr \<lparr>r_data = [example_code 2 ''ZZ9999ZZ99'' True (Some 7)], r_total = 1\<rparr>"
    by (simp add: n1 h r1 eval_defs)
  from equal_variant_sets_equal_views[OF cs vs, of "example_query None"]
  have "fst (getWinners ?d' (example_query None)) = fst (getWinners ?d (example_query None))"
    and "fst (getLosers ?d' (example_query None)) = fst (getLosers ?d (example_query None))"
    by blast+
  then show ?thesis using vs dc w l by simp
qed

theorem same_normal_form_winners_counterexample:
  "norm ''AB12-34CD56'' = norm ''AB123-4CD56''
   \<and> fst (getWinners
        (example_db [example_code 1 ''AB12-34CD56'' True (Some 5),
                     example_code 2 ''AB123-4CD56'' True (Some 7)]
           [''AB12-34CD56'', ''AB123-4CD56''])
        (example_query None))
      = Inr \<lparr>r_data = [example_code 2 ''AB123-4CD56'' True (Some 7),
                       example_code 1 ''AB12-34CD56'' True (Some 5)], r_total = 2\<rparr>
   \<and> fst (getWinners
        (example_db [example_code 1 ''AB12-34CD56'' True (Some 5),
                     example_code 2 ''AB123-4CD56'' True (Some 7)]
           [''AB12-34CD56''])
        (example_query None))
      = Inr \<lparr>r_data = [example_code 1 ''AB12-34CD56'' True (Some 5)], r_total = 1\<rparr>
   \<and> fst (getWinners
        (example_db [example_code 1 ''AB12-34CD56'' True (Some 5),
                     example_code 2 ''AB123-4CD56'' True (Some 7)]
           [''AB123-4CD56''])
        (example_query None))
      = Inr \<lparr>r_data = [example_code 2 ''AB123-4CD56'' True (Some 7)], r_total = 1\<rparr>"
proof -
  have n1: "norm ''AB12-34CD56'' = ''AB1234CD56''" by (simp add: string_defs)
  have n2: "norm ''AB123-4CD56'' = ''AB1234CD56''" by (simp add: string_defs)
  have h: "withHyphen ''AB1234CD56'' = ''AB1234-CD56''" by (simp add: string_defs)
  have r1: "replaceHyphens ''AB12-34CD56'' = ''AB1234CD56''" by (simp add: string_defs)
  have r2: "replaceHyphens ''AB123-4CD56'' = ''AB1234CD56''" by (simp add: string_defs)
  show ?thesis by (simp add: n1 n2 h r1 r2 eval_defs)
qed

subsection \<open>The single lookup\<close>




end
